theory Spec2Isabelle
  imports Main
begin

section \<open>C strings and the C library routines used by main.cpp\<close>

text \<open>
  A C string is modelled by the list of its characters before the terminating NUL; a
  character array (such as \<^verbatim>\<open>char name[32]\<close>) is the list of all its bytes, and
  \<open>cstr\<close> reads the string stored in it.

  A C \<^verbatim>\<open>int\<close> is 32 bits wide and a \<^verbatim>\<open>long\<close> 64 bits; both are modelled by
  \<open>int\<close> with the limits written out. For a digit sequence out of range the model
  follows the C library of 64-bit Linux: \<^verbatim>\<open>strtol\<close> gives \<^verbatim>\<open>LONG_MAX\<close> or
  \<^verbatim>\<open>LONG_MIN\<close>, and \<^verbatim>\<open>atoi\<close> and the \<^verbatim>\<open>%d\<close> conversion keep the low 32 bits of
  what \<^verbatim>\<open>strtol\<close> gives (read in two's complement). Every value they produce is
  therefore an \<^verbatim>\<open>int\<close>.
\<close>

definition NUL :: char where
  "NUL = CHR 0x00"

definition cstr :: "char list \<Rightarrow> string" where
  "cstr buf = takeWhile (\<lambda>c. c \<noteq> NUL) buf"

text \<open>\<^verbatim>\<open>isspace\<close> in the C locale: space, \<^verbatim>\<open>\t \n \v \f \r\<close>.\<close>

definition isspace :: "char \<Rightarrow> bool" where
  "isspace c = (c = CHR 0x20 \<or> c = CHR 0x09 \<or> c = CHR 0x0A \<or> c = CHR 0x0B
                \<or> c = CHR 0x0C \<or> c = CHR 0x0D)"

definition isdigit :: "char \<Rightarrow> bool" where
  "isdigit c = (48 \<le> (of_char c :: nat) \<and> (of_char c :: nat) \<le> 57)"

definition digit_val :: "char \<Rightarrow> int" where
  "digit_val c = int (of_char c) - 48"

definition LONG_MAX :: int where
  "LONG_MAX = 2 ^ 63 - 1"

definition LONG_MIN :: int where
  "LONG_MIN = - (2 ^ 63)"

text \<open>The conversion of a \<^verbatim>\<open>long\<close> to \<^verbatim>\<open>int\<close>: the low 32 bits, in two's complement.\<close>

definition int_of_long :: "int \<Rightarrow> int" where
  "int_of_long v = (v + 2 ^ 31) mod 2 ^ 32 - 2 ^ 31"

text \<open>
  The decimal digits at the head of a string, accumulated most significant first. The
  magnitude saturates at \<open>2 ^ 63\<close>, the magnitude of \<^verbatim>\<open>LONG_MIN\<close>: \<^verbatim>\<open>strtol\<close> reads
  on to the end of the digits but reports every larger magnitude as out of range.
\<close>

fun scan_digits :: "int \<Rightarrow> string \<Rightarrow> int \<times> string" where
  "scan_digits acc [] = (acc, [])"
| "scan_digits acc (c # cs) =
     (if isdigit c
      then scan_digits (min (10 * acc + digit_val c) (2 ^ 63)) cs
      else (acc, c # cs))"

text \<open>The \<^verbatim>\<open>long\<close> that \<^verbatim>\<open>strtol\<close> returns for a sign and a magnitude.\<close>

definition strtol_result :: "bool \<Rightarrow> int \<Rightarrow> int" where
  "strtol_result neg v = (if neg then max (- v) LONG_MIN else min v LONG_MAX)"

text \<open>
  The subject sequence of \<^verbatim>\<open>strtol(s, &end, 10)\<close> and of the \<^verbatim>\<open>%d\<close> conversion:
  white space is skipped, then an optional sign, then at least one decimal digit.
  \<open>scan_int\<close> is \<open>None\<close> when no digit is there (no conversion); otherwise it gives
  the \<^verbatim>\<open>int\<close> stored or returned, and the rest of the string.
\<close>

definition scan_sign :: "string \<Rightarrow> bool \<times> string" where
  "scan_sign s =
     (case s of
        [] \<Rightarrow> (False, [])
      | c # cs \<Rightarrow>
          if c = CHR ''-'' then (True, cs)
          else if c = CHR ''+'' then (False, cs)
          else (False, c # cs))"

definition scan_int :: "string \<Rightarrow> (int \<times> string) option" where
  "scan_int s =
     (case scan_sign (dropWhile isspace s) of
        (neg, t) \<Rightarrow>
          (case t of
             [] \<Rightarrow> None
           | c # cs \<Rightarrow>
               if isdigit c
               then (case scan_digits 0 t of
                       (v, rest) \<Rightarrow> Some (int_of_long (strtol_result neg v), rest))
               else None))"

text \<open>
  \<^verbatim>\<open>atoi\<close>: what \<^verbatim>\<open>strtol\<close> converts, as an \<^verbatim>\<open>int\<close>; 0 when it converts
  nothing.
\<close>

definition atoi :: "string \<Rightarrow> int" where
  "atoi s = (case scan_int s of None \<Rightarrow> 0 | Some (v, rest) \<Rightarrow> v)"

text \<open>
  \<^verbatim>\<open>sscanf(s, "%dx%d", &w, &h)\<close>, given the values of \<open>w\<close> and \<open>h\<close> before the call:
  the number of items assigned, and the values of \<open>w\<close> and \<open>h\<close> after it. Each \<^verbatim>\<open>%d\<close>
  stores its \<^verbatim>\<open>int\<close> as soon as it has matched; the literal \<^verbatim>\<open>x\<close> must be the next
  character after the first integer. (Where C returns \<^verbatim>\<open>EOF\<close> the count is 0.)
\<close>

definition sscanf_dxd :: "string \<Rightarrow> int \<Rightarrow> int \<Rightarrow> nat \<times> int \<times> int" where
  "sscanf_dxd s w h =
     (case scan_int s of
        None \<Rightarrow> (0, w, h)
      | Some (a, r) \<Rightarrow>
          (case r of
             [] \<Rightarrow> (1, a, h)
           | c # r' \<Rightarrow>
               if c = CHR ''x''
               then (case scan_int r' of
                       None \<Rightarrow> (1, a, h)
                     | Some (b, r'') \<Rightarrow> (2, a, b))
               else (1, a, h)))"

text \<open>\<^verbatim>\<open>strchr(s, c)\<close>: the index of the first \<open>c\<close> in \<open>s\<close>, \<open>None\<close> for a null result.\<close>

fun strchr :: "string \<Rightarrow> char \<Rightarrow> nat option" where
  "strchr [] c = None"
| "strchr (d # ds) c = (if d = c then Some 0 else map_option Suc (strchr ds c))"

text \<open>
  \<^verbatim>\<open>strncpy(dst, src, n)\<close>: the first \<open>n\<close> bytes of \<open>dst\<close> become the first \<open>n\<close>
  characters of \<open>src\<close>, padded with NUL when \<open>src\<close> is shorter; the bytes of \<open>dst\<close>
  from \<open>n\<close> on are kept.
\<close>

definition strncpy :: "char list \<Rightarrow> string \<Rightarrow> nat \<Rightarrow> char list" where
  "strncpy dst src n = take n (src @ replicate (n - length src) NUL) @ drop n dst"

section \<open>The scaler argument (main.cpp, lines 84-99)\<close>

record Scaler =
  name :: "char list"
  factor :: int

text \<open>
  \<open>sep\<close> is the position of the first \<^verbatim>\<open>@\<close>. \<^verbatim>\<open>*sep = 0\<close> cuts the argument there, so
  the string copied is the part before it, and \<^verbatim>\<open>sep + 1\<close> is the part after it.
  \<^verbatim>\<open>sizeof(s->name) - 1\<close> is 31.
\<close>

definition parseScaler :: "string \<Rightarrow> Scaler \<Rightarrow> Scaler" where
  "parseScaler arg s =
     (let sep = strchr arg (CHR ''@'');
          s1 = (case sep of
                  None \<Rightarrow> s
                | Some i \<Rightarrow> s\<lparr>name := (strncpy (name s) (take i arg) 31)[31 := NUL]\<rparr>);
          s2 = (case sep of
                  None \<Rightarrow> s1
                | Some i \<Rightarrow> s1\<lparr>factor := atoi (drop (Suc i) arg)\<rparr>)
      in s2)"

section \<open>Declarations taken from the engine's headers\<close>

text \<open>
  The enumerations and the display-mode structure are declared in headers of the engine;
  main.cpp names the enumerators and fields below. A renderer kind is an \<^verbatim>\<open>int\<close> in
  main.cpp; the only values main ever gives it are the three enumerators (from the
  table \<open>GRAPHICS\<close>, from \<open>getGraphicsType\<close> or from line 199), hence a datatype.
\<close>

datatype Language = LANG_FR | LANG_US | LANG_DE | LANG_ES | LANG_IT

datatype graphics_type = GRAPHICS_ORIGINAL | GRAPHICS_SOFTWARE | GRAPHICS_GL

text \<open>
  Modelled from the spec: the enumeration \<^verbatim>\<open>Resource::DataType\<close> is declared in
  resource.h. main.cpp names three of its enumerators; the spec (4.2) says that the
  detected edition also ranges over the legacy editions, which \<open>DT_other\<close> stands for
  (one value for each remaining enumerator).
\<close>

datatype DataType = DT_15TH_EDITION | DT_20TH_EDITION | DT_3DO | DT_other nat

datatype display_kind = WINDOWED | FULLSCREEN | FULLSCREEN_AR

record DisplayMode =
  mode :: display_kind
  width :: int
  height :: int
  opengl :: bool

text \<open>The objects the two factory functions return.\<close>

datatype Graphics = GraphicsSoft | GraphicsGL

section \<open>Tables and process-wide flags (main.cpp, lines 30-54)\<close>

definition LANGUAGES :: "(string \<times> Language) list" where
  "LANGUAGES =
     [(''fr'', LANG_FR), (''us'', LANG_US), (''de'', LANG_DE), (''es'', LANG_ES),
      (''it'', LANG_IT)]"

definition GRAPHICS :: "(string \<times> graphics_type) list" where
  "GRAPHICS =
     [(''original'', GRAPHICS_ORIGINAL), (''software'', GRAPHICS_SOFTWARE),
      (''gl'', GRAPHICS_GL)]"

text \<open>
  The search loop of the \<^verbatim>\<open>--language\<close> and \<^verbatim>\<open>--render\<close> cases: the entry of the
  first row whose name \<^verbatim>\<open>strcmp\<close> finds equal to the argument; \<open>None\<close> when the
  loop reaches the sentinel row.
\<close>

fun find_name :: "(string \<times> 'a) list \<Rightarrow> string \<Rightarrow> 'a option" where
  "find_name [] arg = None"
| "find_name ((n, v) # rows) arg = (if arg = n then Some v else find_name rows arg)"

record Globals =
  Graphics_is1991 :: bool
  Graphics_use565 :: bool
  Video_useEGA :: bool

definition globals_init :: Globals where
  "globals_init =
     \<lparr>Graphics_is1991 = False, Graphics_use565 = False, Video_useEGA = False\<rparr>"

section \<open>createGraphics and getGraphicsType (main.cpp, lines 56-82)\<close>

text \<open>
  \<open>use_gl\<close> says whether the build defines \<^verbatim>\<open>USE_GL\<close>. The result is the new value
  of the flags and the pointer returned, \<open>None\<close> for the null pointer of line 70.
\<close>

definition createGraphics :: "bool \<Rightarrow> graphics_type \<Rightarrow> Globals \<Rightarrow> Globals \<times> Graphics option" where
  "createGraphics use_gl t g =
     (case t of
        GRAPHICS_ORIGINAL \<Rightarrow> (g\<lparr>Graphics_is1991 := True\<rparr>, Some GraphicsSoft)
      | GRAPHICS_SOFTWARE \<Rightarrow> (g, Some GraphicsSoft)
      | GRAPHICS_GL \<Rightarrow> (g, if use_gl then Some GraphicsGL else None))"

fun getGraphicsType :: "DataType \<Rightarrow> graphics_type" where
  "getGraphicsType DT_15TH_EDITION = GRAPHICS_GL"
| "getGraphicsType DT_20TH_EDITION = GRAPHICS_GL"
| "getGraphicsType DT_3DO = GRAPHICS_GL"
| "getGraphicsType (DT_other k) = GRAPHICS_ORIGINAL"

section \<open>main: local state and option handling (main.cpp, lines 104-190)\<close>

record main_state =
  dataPath :: "string option"
  part :: int
  lang :: Language
  graphicsType :: graphics_type
  dm :: DisplayMode
  scaler :: Scaler
  defaultGraphics :: bool
  glob :: Globals

text \<open>
  What a run takes from outside main.cpp:
  \<^item> \<open>USE_GL\<close>: whether the build defines the macro;
  \<^item> \<open>stack_name\<close>: the indeterminate bytes of the local \<^verbatim>\<open>scaler.name\<close> before
    line 115 writes its first byte;
  \<^item> \<open>argv1_dir\<close>: \<open>Some p\<close> when \<^verbatim>\<open>argc == 2\<close> and \<^verbatim>\<open>argv[1]\<close> is \<open>p\<close>, an
    existing directory (lines 118-124);
  \<^item> \<open>detect\<close>: the edition \<^verbatim>\<open>e->_res.getDataType()\<close> reports for the engine
    constructed from a data path and a part;
  \<^item> \<open>quit\<close>: the value of \<^verbatim>\<open>stub->_pi.quit\<close> after \<open>k\<close> calls of \<^verbatim>\<open>e->run()\<close>.
\<close>

record Env =
  USE_GL :: bool
  stack_name :: "char list"
  argv1_dir :: "string option"
  detect :: "string option \<Rightarrow> int \<Rightarrow> DataType"
  quit :: "nat \<Rightarrow> bool"

definition init_state :: "Env \<Rightarrow> main_state" where
  "init_state env =
     \<lparr>dataPath = argv1_dir env,
      part = 16001,
      lang = LANG_FR,
      graphicsType = GRAPHICS_GL,
      dm = \<lparr>mode = WINDOWED, width = 640, height = 400,
            opengl = (GRAPHICS_GL = GRAPHICS_GL)\<rparr>,
      scaler = \<lparr>name = (stack_name env)[0 := NUL], factor = 1\<rparr>,
      defaultGraphics = True,
      glob = globals_init\<rparr>"

text \<open>
  One value for each result of \<^verbatim>\<open>getopt_long\<close> (a library routine): the option found,
  with \<^verbatim>\<open>optarg\<close> where it takes an argument; \<open>Opt_unknown\<close> is the result \<^verbatim>\<open>'?'\<close>.
  The end of the list is the result \<open>-1\<close>.
\<close>

datatype opt =
    Opt_datapath string
  | Opt_language string
  | Opt_part string
  | Opt_render string
  | Opt_window string
  | Opt_fullscreen
  | Opt_fullscreen_ar
  | Opt_scaler string
  | Opt_ega_palette
  | Opt_help
  | Opt_unknown

text \<open>One round of the option loop; \<open>None\<close> when main prints the usage and returns 0.\<close>

fun handle_option :: "opt \<Rightarrow> main_state \<Rightarrow> main_state option" where
  "handle_option (Opt_datapath a) st = Some (st\<lparr>dataPath := Some a\<rparr>)"
| "handle_option (Opt_language a) st =
     (case find_name LANGUAGES a of
        Some l \<Rightarrow> Some (st\<lparr>lang := l\<rparr>)
      | None \<Rightarrow> Some st)"
| "handle_option (Opt_part a) st = Some (st\<lparr>part := atoi a\<rparr>)"
| "handle_option (Opt_render a) st =
     (case find_name GRAPHICS a of
        Some t \<Rightarrow>
          Some (st\<lparr>graphicsType := t,
                   dm := (dm st)\<lparr>opengl := (t = GRAPHICS_GL)\<rparr>,
                   defaultGraphics := False\<rparr>)
      | None \<Rightarrow> Some st)"
| "handle_option (Opt_window a) st =
     (case sscanf_dxd a (width (dm st)) (height (dm st)) of
        (n, w, h) \<Rightarrow> Some (st\<lparr>dm := (dm st)\<lparr>width := w, height := h\<rparr>\<rparr>))"
| "handle_option Opt_fullscreen st = Some (st\<lparr>dm := (dm st)\<lparr>mode := FULLSCREEN\<rparr>\<rparr>)"
| "handle_option Opt_fullscreen_ar st = Some (st\<lparr>dm := (dm st)\<lparr>mode := FULLSCREEN_AR\<rparr>\<rparr>)"
| "handle_option (Opt_scaler a) st = Some (st\<lparr>scaler := parseScaler a (scaler st)\<rparr>)"
| "handle_option Opt_ega_palette st =
     Some (st\<lparr>glob := (glob st)\<lparr>Video_useEGA := True\<rparr>\<rparr>)"
| "handle_option Opt_help st = None"
| "handle_option Opt_unknown st = None"

fun options_loop :: "opt list \<Rightarrow> main_state \<Rightarrow> main_state option" where
  "options_loop [] st = Some st"
| "options_loop (x # xs) st =
     (case handle_option x st of
        None \<Rightarrow> None
      | Some st' \<Rightarrow> options_loop xs st')"

section \<open>main: backend resolution and lifecycle (main.cpp, lines 191-214)\<close>

text \<open>Lines 193-201, given the edition the engine reports.\<close>

definition resolve_graphics :: "DataType \<Rightarrow> main_state \<Rightarrow> main_state" where
  "resolve_graphics dt st =
     (let st1 = (if defaultGraphics st
                 then st\<lparr>graphicsType := getGraphicsType dt,
                         dm := (dm st)\<lparr>opengl := (getGraphicsType dt = GRAPHICS_GL)\<rparr>\<rparr>
                 else st)
      in if graphicsType st1 \<noteq> GRAPHICS_GL \<and> dt = DT_3DO
         then st1\<lparr>graphicsType := GRAPHICS_SOFTWARE,
                  glob := (glob st1)\<lparr>Graphics_use565 := True\<rparr>\<rparr>
         else st1)"

text \<open>The calls main makes on the engine and on the platform stub, in program order.\<close>

datatype call =
    New_Engine "string option" int
  | Create_Graphics graphics_type
  | SystemStub_SDL_create
  | Stub_init Language DisplayMode
  | Engine_setSystemStub "Graphics option"
  | Engine_setup Language graphics_type string int
  | Engine_run
  | Engine_finish
  | Delete_Engine
  | Stub_fini
  | Delete_Stub

text \<open>
  The loop of lines 207-209, entered after \<open>k\<close> calls of \<^verbatim>\<open>e->run()\<close>: the number of
  calls made when the loop ends; \<open>None\<close> when the quit flag never rises.
\<close>

partial_function (option) run_loop :: "(nat \<Rightarrow> bool) \<Rightarrow> nat \<Rightarrow> nat option" where
  "run_loop q k = (if q k then Some k else run_loop q (Suc k))"

declare run_loop.simps [code]

text \<open>Lines 210-213.\<close>

definition teardown :: "call list" where
  "teardown = [Engine_finish, Delete_Engine, Stub_fini, Delete_Stub]"

datatype outcome =
    Usage
  | Ran main_state "call list"

text \<open>Lines 104-201: the variables of main once the backend is resolved.\<close>

definition resolved :: "Env \<Rightarrow> opt list \<Rightarrow> main_state option" where
  "resolved env opts =
     (case options_loop opts (init_state env) of
        None \<Rightarrow> None
      | Some st \<Rightarrow> Some (resolve_graphics (detect env (dataPath st) (part st)) st))"

text \<open>
  A whole run: \<open>Usage\<close> when the option loop prints the usage and returns 0; otherwise
  the final values of main's variables and of the process-wide flags, with the calls
  made, when the run loop ends (main returns 0); \<open>None\<close> when it never ends.
\<close>

definition main :: "Env \<Rightarrow> opt list \<Rightarrow> outcome option" where
  "main env opts =
     (case resolved env opts of
        None \<Rightarrow> Some Usage
      | Some st1 \<Rightarrow>
          (case createGraphics (USE_GL env) (graphicsType st1) (glob st1) of
             (g, graphics) \<Rightarrow>
               (let st2 = st1\<lparr>glob := g\<rparr>;
                    startup =
                      [New_Engine (dataPath st2) (part st2),
                       Create_Graphics (graphicsType st2),
                       SystemStub_SDL_create,
                       Stub_init (lang st2) (dm st2),
                       Engine_setSystemStub graphics,
                       Engine_setup (lang st2) (graphicsType st2)
                         (cstr (name (scaler st2))) (factor (scaler st2))]
                in case run_loop (quit env) 0 of
                     None \<Rightarrow> None
                   | Some n \<Rightarrow>
                       Some (Ran st2 (startup @ replicate n Engine_run @ teardown)))))"

section \<open>Notions of the specification\<close>

text \<open>
  The explicit renderer request of a command line (\<open>requestedBackend\<close> in the spec):
  the renderer named by the last \<^verbatim>\<open>--render\<close> option whose name is in the table,
  \<open>None\<close> when there is none.
\<close>

fun render_request :: "opt \<Rightarrow> graphics_type option" where
  "render_request (Opt_render a) = find_name GRAPHICS a"
| "render_request x = None"

fun requestedBackend :: "opt list \<Rightarrow> graphics_type option" where
  "requestedBackend [] = None"
| "requestedBackend (x # xs) =
     (case requestedBackend xs of
        Some t \<Rightarrow> Some t
      | None \<Rightarrow> render_request x)"

text \<open>The parts of a scaler argument before and after its first \<^verbatim>\<open>@\<close>.\<close>

definition before_at :: "string \<Rightarrow> string" where
  "before_at arg = takeWhile (\<lambda>c. c \<noteq> CHR ''@'') arg"

definition after_at :: "string \<Rightarrow> string" where
  "after_at arg = drop 1 (dropWhile (\<lambda>c. c \<noteq> CHR ''@'') arg)"

text \<open>The editions the spec calls modern.\<close>

fun modern :: "DataType \<Rightarrow> bool" where
  "modern DT_15TH_EDITION = True"
| "modern DT_20TH_EDITION = True"
| "modern DT_3DO = True"
| "modern (DT_other k) = False"

text \<open>The calls of a run that ends; none for the usage exit.\<close>

fun calls_of :: "outcome option \<Rightarrow> call list" where
  "calls_of (Some (Ran st tr)) = tr"
| "calls_of r = []"

text \<open>\<open>precedes a b tr\<close>: call \<open>a\<close> is made, and call \<open>b\<close> is made later.\<close>

definition precedes :: "call \<Rightarrow> call \<Rightarrow> call list \<Rightarrow> bool" where
  "precedes a b tr = (b \<in> set (drop 1 (dropWhile (\<lambda>c. c \<noteq> a) tr)))"

text \<open>
  The run of digits a text starts with, after white space and an optional \<^verbatim>\<open>+\<close>,
  and the number a run of digits denotes.
\<close>

definition unsigned_digits :: "string \<Rightarrow> string" where
  "unsigned_digits t =
     takeWhile isdigit
       (case dropWhile isspace t of
          [] \<Rightarrow> []
        | c # cs \<Rightarrow> if c = CHR ''+'' then cs else c # cs)"

definition decimal_value :: "string \<Rightarrow> int" where
  "decimal_value ds = foldl (\<lambda>a c. 10 * a + digit_val c) 0 ds"

text \<open>
  A text that reads as a positive decimal number: after white space and an optional
  \<^verbatim>\<open>+\<close>, a run of digits that are not all \<^verbatim>\<open>0\<close>.
\<close>

definition positive_decimal :: "string \<Rightarrow> bool" where
  "positive_decimal t = (\<exists>c \<in> set (unsigned_digits t). c \<noteq> CHR ''0'')"

text \<open>Concrete environments for the examples below.\<close>

definition env_3DO :: Env where
  "env_3DO =
     \<lparr>USE_GL = True, stack_name = replicate 32 (CHR ''?''), argv1_dir = None,
      detect = (\<lambda>p n. DT_3DO), quit = (\<lambda>k. 2 \<le> k)\<rparr>"

definition env_legacy :: Env where
  "env_legacy =
     \<lparr>USE_GL = False, stack_name = replicate 32 (CHR ''?''), argv1_dir = None,
      detect = (\<lambda>p n. DT_other 0), quit = (\<lambda>k. 2 \<le> k)\<rparr>"

definition scaler_init :: Scaler where
  "scaler_init = \<lparr>name = (replicate 32 (CHR ''?''))[0 := NUL], factor = 1\<rparr>"

section \<open>Properties of the integer conversions\<close>

text \<open>
  Every value scanned is an \<^verbatim>\<open>int\<close>; a run of digits that denotes a positive number
  within the range of \<^verbatim>\<open>int\<close> is converted to that number.
\<close>

lemma int_of_long_range: "- 2147483648 \<le> int_of_long v \<and> int_of_long v \<le> 2147483647"
proof -
  have "0 \<le> (v + 2 ^ 31) mod (2 ^ 32 :: int)" and "(v + 2 ^ 31) mod (2 ^ 32 :: int) < 2 ^ 32"
    by simp_all
  then show ?thesis
    by (simp add: int_of_long_def)
qed

lemma int_of_long_id:
  "- 2147483648 \<le> v \<Longrightarrow> v \<le> 2147483647 \<Longrightarrow> int_of_long v = v"
  by (simp add: int_of_long_def)

lemma scan_int_range:
  "scan_int s = Some (v, r) \<Longrightarrow> - 2147483648 \<le> v \<and> v \<le> 2147483647"
  using int_of_long_range
  by (auto simp: scan_int_def split: prod.splits list.splits if_splits)

lemma atoi_range: "- 2147483648 \<le> atoi s \<and> atoi s \<le> 2147483647"
proof (cases "scan_int s")
  case None
  then show ?thesis by (simp add: atoi_def)
next
  case (Some p)
  then obtain v r where "scan_int s = Some (v, r)" by (cases p) simp
  with scan_int_range [OF this] show ?thesis by (simp add: atoi_def)
qed


lemma digit_val_range: "isdigit c \<Longrightarrow> 0 \<le> digit_val c \<and> digit_val c \<le> 9"
  by (auto simp: isdigit_def digit_val_def)

lemma digit_val_zero: "digit_val c = 0 \<longleftrightarrow> c = CHR ''0''"
proof
  assume "digit_val c = 0"
  then have "(of_char c :: nat) = of_char (CHR ''0'')"
    by (simp add: digit_val_def)
  then show "c = CHR ''0''"
    by (simp only: of_char_eq_iff)
next
  assume "c = CHR ''0''"
  then show "digit_val c = 0" by (simp add: digit_val_def)
qed

lemma foldl_digits_grows:
  "0 \<le> a \<Longrightarrow> \<forall>c \<in> set ds. isdigit c \<Longrightarrow> a \<le> foldl (\<lambda>a c. 10 * a + digit_val c) a ds"
proof (induction ds arbitrary: a)
  case Nil
  then show ?case by simp
next
  case (Cons d ds)
  from Cons.prems digit_val_range [of d] have n: "0 \<le> 10 * a + digit_val d" and g: "a \<le> 10 * a + digit_val d"
    by simp_all
  from Cons.IH [OF n] Cons.prems(2) have "10 * a + digit_val d \<le> foldl (\<lambda>a c. 10 * a + digit_val c) (10 * a + digit_val d) ds"
    by simp
  with g show ?case by simp
qed

lemma foldl_digits_positive:
  "0 \<le> a \<Longrightarrow> \<forall>c \<in> set ds. isdigit c \<Longrightarrow>
   1 \<le> foldl (\<lambda>a c. 10 * a + digit_val c) a ds \<longleftrightarrow> 1 \<le> a \<or> (\<exists>c \<in> set ds. c \<noteq> CHR ''0'')"
proof (induction ds arbitrary: a)
  case Nil
  then show ?case by simp
next
  case (Cons d ds)
  from Cons.prems have dd: "isdigit d" by simp
  from Cons.prems digit_val_range [OF dd] have n: "0 \<le> 10 * a + digit_val d"
    by simp
  from Cons.prems(1) digit_val_range [OF dd]
  have "1 \<le> 10 * a + digit_val d \<longleftrightarrow> 1 \<le> a \<or> digit_val d \<noteq> 0"
    by arith
  with Cons.IH [OF n] Cons.prems(2) show ?case
    by (auto simp: digit_val_zero)
qed

lemma scan_digits_value:
  "0 \<le> acc \<Longrightarrow> acc \<le> 2 ^ 63 \<Longrightarrow>
   fst (scan_digits acc u)
     = min (foldl (\<lambda>a c. 10 * a + digit_val c) acc (takeWhile isdigit u)) (2 ^ 63)"
proof (induction u arbitrary: acc)
  case Nil
  then show ?case by simp
next
  case (Cons c cs)
  show ?case
  proof (cases "isdigit c")
    case False
    with Cons.prems show ?thesis by simp
  next
    case True
    let ?x = "10 * acc + digit_val c"
    from Cons.prems digit_val_range [OF True] have x: "0 \<le> ?x" by simp
    have ds: "\<forall>d \<in> set (takeWhile isdigit cs). isdigit d"
      by (auto dest: set_takeWhileD)
    have "fst (scan_digits (min ?x (2 ^ 63)) cs)
      = min (foldl (\<lambda>a c. 10 * a + digit_val c) (min ?x (2 ^ 63)) (takeWhile isdigit cs)) (2 ^ 63)"
      using x by (intro Cons.IH) simp_all
    also have "\<dots> = min (foldl (\<lambda>a c. 10 * a + digit_val c) ?x (takeWhile isdigit cs)) (2 ^ 63)"
    proof (cases "?x \<le> 2 ^ 63")
      case True
      then show ?thesis by (simp add: min_def)
    next
      case False
      then have big: "(2 ^ 63 :: int) \<le> ?x" by simp
      have "(2 ^ 63 :: int) \<le> foldl (\<lambda>a c. 10 * a + digit_val c) (2 ^ 63) (takeWhile isdigit cs)"
        using ds by (intro foldl_digits_grows) simp_all
      moreover have "?x \<le> foldl (\<lambda>a c. 10 * a + digit_val c) ?x (takeWhile isdigit cs)"
        using ds x by (intro foldl_digits_grows) simp_all
      ultimately show ?thesis using big by (simp add: min_def)
    qed
    finally show ?thesis using True by simp
  qed
qed

lemma atoi_small_positive:
  assumes "positive_decimal t" and "decimal_value (unsigned_digits t) \<le> 2147483647"
  shows "atoi t = decimal_value (unsigned_digits t) \<and> 1 \<le> atoi t"
proof -
  define w where "w = (case dropWhile isspace t of
          [] \<Rightarrow> []
        | c # cs \<Rightarrow> if c = CHR ''+'' then cs else c # cs)"
  have u: "unsigned_digits t = takeWhile isdigit w"
    by (simp add: unsigned_digits_def w_def)
  from assms(1) have ne: "takeWhile isdigit w \<noteq> []"
    by (auto simp: positive_decimal_def u)
  then obtain d w' where w: "w = d # w'" and d: "isdigit d"
    by (cases w) (auto split: if_splits)
  have minus: "\<not> isdigit (CHR ''-'')"
    by (simp add: isdigit_def)
  have sg: "scan_sign (dropWhile isspace t) = (False, w)"
  proof (cases "dropWhile isspace t")
    case Nil
    with w show ?thesis by (simp add: w_def)
  next
    case (Cons c cs)
    show ?thesis
    proof (cases "c = CHR ''-''")
      case True
      with Cons have "w = CHR ''-'' # cs" by (simp add: w_def)
      with w d minus show ?thesis by simp
    next
      case False
      with Cons show ?thesis by (simp add: w_def scan_sign_def)
    qed
  qed
  have all: "\<forall>c \<in> set (takeWhile isdigit w). isdigit c"
    by (auto dest: set_takeWhileD)
  from foldl_digits_positive [of 0 "takeWhile isdigit w"] all assms(1)
  have pos: "1 \<le> decimal_value (unsigned_digits t)"
    by (simp add: decimal_value_def positive_decimal_def u)
  obtain v rest where sd: "scan_digits 0 w = (v, rest)"
    by (cases "scan_digits 0 w")
  from scan_digits_value [of 0 w] sd
  have "v = min (decimal_value (unsigned_digits t)) (2 ^ 63)"
    by (simp add: decimal_value_def u)
  with assms(2) have v: "v = decimal_value (unsigned_digits t)"
    by simp
  have "atoi t = int_of_long (strtol_result False v)"
    using sg w d sd by (simp add: atoi_def scan_int_def)
  also have "strtol_result False v = v"
    using v assms(2) by (simp add: strtol_result_def LONG_MAX_def)
  also have "int_of_long v = v"
    using v pos assms(2) by (intro int_of_long_id) simp_all
  finally show ?thesis using v pos by simp
qed

lemma scan_int_small_positive:
  assumes "positive_decimal t" and "decimal_value (unsigned_digits t) \<le> 2147483647"
  shows "\<exists>r. scan_int t = Some (decimal_value (unsigned_digits t), r)"
proof (cases "scan_int t")
  case None
  with atoi_small_positive [OF assms] show ?thesis
    by (simp add: atoi_def)
next
  case (Some p)
  with atoi_small_positive [OF assms] show ?thesis
    by (cases p) (simp add: atoi_def)
qed

section \<open>Properties of the window geometry\<close>

text \<open>
  Claim C3, as amended. For every geometry argument of \<^verbatim>\<open>--window\<close> that fails to
  match two integers, the height keeps its value. The width keeps its value when the
  argument does not start (after white space) with an integer; when it does, the width
  is set to that integer as \<^verbatim>\<open>%d\<close> stores it, an \<^verbatim>\<open>int\<close>, although the \<^verbatim>\<open>x\<close> or
  the second integer is missing. For a positive decimal number up to 2147483647 the
  width is that number.
\<close>

theorem window_first_integer_only:
  assumes "fst (sscanf_dxd a (width (dm st)) (height (dm st))) \<noteq> 2"
  shows "\<exists>st'. handle_option (Opt_window a) st = Some st'
     \<and> height (dm st') = height (dm st)
     \<and> width (dm st') = (case scan_int a of None \<Rightarrow> width (dm st) | Some (w, r) \<Rightarrow> w)
     \<and> (scan_int a \<noteq> None \<longrightarrow>
          - 2147483648 \<le> width (dm st') \<and> width (dm st') \<le> 2147483647)
     \<and> (positive_decimal a \<and> decimal_value (unsigned_digits a) \<le> 2147483647 \<longrightarrow>
          width (dm st') = decimal_value (unsigned_digits a))"
proof -
  obtain st' where h: "handle_option (Opt_window a) st = Some st'"
    by (cases "sscanf_dxd a (width (dm st)) (height (dm st))") simp
  from assms h have ht: "height (dm st') = height (dm st)"
    and wd: "width (dm st') = (case scan_int a of None \<Rightarrow> width (dm st) | Some (w, r) \<Rightarrow> w)"
    by (auto simp: sscanf_dxd_def split: option.splits prod.splits list.splits if_splits)
  from wd scan_int_range [of a] have rg: "scan_int a \<noteq> None \<longrightarrow>
          - 2147483648 \<le> width (dm st') \<and> width (dm st') \<le> 2147483647"
    by (cases "scan_int a") auto
  from wd scan_int_small_positive [of a]
  have "positive_decimal a \<and> decimal_value (unsigned_digits a) \<le> 2147483647 \<longrightarrow>
          width (dm st') = decimal_value (unsigned_digits a)"
    by auto
  with h ht wd rg show ?thesis by blast
qed

theorem window_first_integer_only_witness:
  "fst (sscanf_dxd ''800xabc'' (width (dm (init_state env_legacy)))
         (height (dm (init_state env_legacy)))) \<noteq> 2
   \<and> map_option (height \<circ> dm) (handle_option (Opt_window ''800xabc'') (init_state env_legacy))
       = Some 400
   \<and> map_option (width \<circ> dm) (handle_option (Opt_window ''800xabc'') (init_state env_legacy))
       = Some 800
   \<and> fst (sscanf_dxd ''4294967297xabc'' (width (dm (init_state env_legacy)))
         (height (dm (init_state env_legacy)))) \<noteq> 2
   \<and> map_option (width \<circ> dm)
         (handle_option (Opt_window ''4294967297xabc'') (init_state env_legacy))
       = Some 1
   \<and> fst (sscanf_dxd ''abc'' (width (dm (init_state env_legacy)))
         (height (dm (init_state env_legacy)))) \<noteq> 2
   \<and> map_option (width \<circ> dm) (handle_option (Opt_window ''abc'') (init_state env_legacy))
       = Some 640"
proof -
  have s: "scan_int ''800xabc'' = Some (800, ''xabc'')"
    and s': "scan_int ''4294967297xabc'' = Some (1, ''xabc'')"
    and s'': "scan_int ''abc'' = None"
    by code_simp+
  have i: "width (dm (init_state env_legacy)) = 640" "height (dm (init_state env_legacy)) = 400"
    by (simp_all add: init_state_def)
  have n: "fst (sscanf_dxd ''800xabc'' (width (dm (init_state env_legacy)))
         (height (dm (init_state env_legacy)))) \<noteq> 2"
    and n': "fst (sscanf_dxd ''4294967297xabc'' (width (dm (init_state env_legacy)))
         (height (dm (init_state env_legacy)))) \<noteq> 2"
    and n'': "fst (sscanf_dxd ''abc'' (width (dm (init_state env_legacy)))
         (height (dm (init_state env_legacy)))) \<noteq> 2"
    by (simp_all add: sscanf_dxd_def s s' s'')
  from window_first_integer_only [OF n] window_first_integer_only [OF n']
    window_first_integer_only [OF n''] s s' s'' n n' n'' i
  show ?thesis by auto
qed

text \<open>
  The claim as first stated (both fields unchanged whenever two integers are not
  matched) fails on \<^verbatim>\<open>800xabc\<close>: one item is assigned, and the width goes from 640
  to 800.
\<close>

theorem window_partial_update_counterexample:
  "fst (sscanf_dxd ''800xabc'' 640 400) = 1
   \<and> width (dm (init_state env_legacy)) = 640
   \<and> map_option (width \<circ> dm) (handle_option (Opt_window ''800xabc'') (init_state env_legacy))
       = Some 800"
  by code_simp

section \<open>Properties of the scaler argument\<close>

text \<open>What \<open>strchr\<close> finds, and the two cases of \<open>parseScaler\<close>.\<close>

lemma cstr_first_NUL: "cstr (buf[0 := NUL]) = []"
  by (cases buf) (simp_all add: cstr_def)

lemma strchr_None: "strchr s c = None \<longleftrightarrow> c \<notin> set s"
  by (induction s) auto

lemma strchr_Some:
  "strchr s c = Some i \<Longrightarrow>
   take i s = takeWhile (\<lambda>d. d \<noteq> c) s \<and> drop (Suc i) s = drop 1 (dropWhile (\<lambda>d. d \<noteq> c) s)"
  by (induction s arbitrary: i) (auto split: if_splits)

lemma parseScaler_no_at: "CHR ''@'' \<notin> set arg \<Longrightarrow> parseScaler arg s = s"
  by (simp add: parseScaler_def strchr_None [symmetric])

lemma parseScaler_at:
  assumes "CHR ''@'' \<in> set arg"
  shows "parseScaler arg s =
    s\<lparr>name := (strncpy (name s) (before_at arg) 31)[31 := NUL],
      factor := atoi (after_at arg)\<rparr>"
proof -
  from assms obtain i where i: "strchr arg (CHR ''@'') = Some i"
    using strchr_None [of arg "CHR ''@''"] by (cases "strchr arg (CHR ''@'')") auto
  from strchr_Some [OF i] i show ?thesis
    by (simp add: parseScaler_def before_at_def after_at_def)
qed

lemma strncpy_terminated:
  assumes "length dst = 32"
  shows "(strncpy dst src 31)[31 := NUL]
    = take 31 (src @ replicate (31 - length src) NUL) @ [NUL]"
proof -
  from assms have "length (drop 31 dst) = 1"
    by simp
  then obtain x where d: "drop 31 dst = [x]"
    by (cases "drop 31 dst") auto
  define xs where "xs = take 31 (src @ replicate (31 - length src) NUL)"
  have l: "length xs = 31"
    by (simp add: xs_def)
  have "strncpy dst src 31 = xs @ [x]"
    by (simp add: strncpy_def d xs_def)
  moreover have "(xs @ [x])[length xs := NUL] = xs @ [NUL]"
    by (rule list_update_length)
  ultimately have "(strncpy dst src 31)[31 := NUL] = xs @ [NUL]"
    using l by simp
  then show ?thesis
    by (simp only: xs_def)
qed

lemma cstr_strncpy:
  assumes "NUL \<notin> set src" and "length dst = 32"
  shows "cstr ((strncpy dst src 31)[31 := NUL]) = take 31 src"
proof (cases "length src < 31")
  case True
  then have "take 31 (src @ replicate (31 - length src) NUL) @ [NUL]
    = src @ (replicate (31 - length src) NUL @ [NUL])"
    by simp
  moreover have "takeWhile (\<lambda>c. c \<noteq> NUL) (src @ (replicate (31 - length src) NUL @ [NUL])) = src"
    using assms(1) True by (subst takeWhile_append2) (auto simp: takeWhile_replicate)
  ultimately show ?thesis
    using True by (simp add: strncpy_terminated [OF assms(2)] cstr_def)
next
  case False
  then have "take 31 (src @ replicate (31 - length src) NUL) @ [NUL] = take 31 src @ [NUL]"
    by simp
  moreover have "takeWhile (\<lambda>c. c \<noteq> NUL) (take 31 src @ [NUL]) = take 31 src"
    using assms(1) by (subst takeWhile_append2) (auto dest: in_set_takeD)
  ultimately show ?thesis
    by (simp add: strncpy_terminated [OF assms(2)] cstr_def)
qed

lemma before_at_no_NUL: "NUL \<notin> set arg \<Longrightarrow> NUL \<notin> set (before_at arg)"
  by (auto simp: before_at_def dest: set_takeWhileD)

text \<open>
  Claim C10. For every scaler argument that contains \<^verbatim>\<open>@\<close>, the stored name is the
  first 31 characters of the part before the first \<^verbatim>\<open>@\<close> (the whole part when it is
  no longer than that), and the 32-byte array ends with NUL, so the stored name is
  NUL-terminated. (An argument, being a C string, holds no NUL.)
\<close>

theorem parseScaler_name_31:
  assumes "CHR ''@'' \<in> set arg" and "NUL \<notin> set arg" and "length (name s) = 32"
  shows "cstr (name (parseScaler arg s)) = take 31 (before_at arg)
    \<and> length (cstr (name (parseScaler arg s))) \<le> 31
    \<and> length (name (parseScaler arg s)) = 32
    \<and> name (parseScaler arg s) ! 31 = NUL"
proof -
  have n: "name (parseScaler arg s) = (strncpy (name s) (before_at arg) 31)[31 := NUL]"
    by (simp add: parseScaler_at [OF assms(1)])
  have c: "cstr (name (parseScaler arg s)) = take 31 (before_at arg)"
    unfolding n using before_at_no_NUL [OF assms(2)] assms(3) by (rule cstr_strncpy)
  have t: "name (parseScaler arg s)
    = take 31 (before_at arg @ replicate (31 - length (before_at arg)) NUL) @ [NUL]"
    unfolding n using assms(3) by (rule strncpy_terminated)
  have "length (name (parseScaler arg s)) = 32"
    unfolding t by simp
  moreover have "length (take 31 (before_at arg @ replicate (31 - length (before_at arg)) NUL)) = 31"
    by simp
  then have "name (parseScaler arg s) ! 31 = NUL"
    unfolding t by (metis nth_append_length)
  ultimately show ?thesis using c by simp
qed


theorem parseScaler_name_31_witness:
  "CHR ''@'' \<in> set ''abcdefghijklmnopqrstuvwxyz0123456@2''
   \<and> NUL \<notin> set ''abcdefghijklmnopqrstuvwxyz0123456@2''
   \<and> length (name scaler_init) = 32
   \<and> cstr (name (parseScaler ''abcdefghijklmnopqrstuvwxyz0123456@2'' scaler_init))
       = ''abcdefghijklmnopqrstuvwxyz01234''
   \<and> name (parseScaler ''abcdefghijklmnopqrstuvwxyz0123456@2'' scaler_init) ! 31 = NUL"
proof -
  have a: "CHR ''@'' \<in> set ''abcdefghijklmnopqrstuvwxyz0123456@2''"
    by simp
  have z: "NUL \<notin> set ''abcdefghijklmnopqrstuvwxyz0123456@2''"
    by (simp add: NUL_def)
  have l: "length (name scaler_init) = 32"
    by (simp add: scaler_init_def)
  have b: "take 31 (before_at ''abcdefghijklmnopqrstuvwxyz0123456@2'')
    = ''abcdefghijklmnopqrstuvwxyz01234''"
    by (simp add: before_at_def)
  from parseScaler_name_31 [OF a z l] a z l b show ?thesis
    by simp
qed

text \<open>
  Claim C7, as amended. A scaler argument without \<^verbatim>\<open>@\<close> leaves the scaler as it was,
  so a scaler at its defaults keeps the empty name and the factor 1, whatever the
  argument. With an \<^verbatim>\<open>@\<close>, the name is the first 31 characters of the part before the
  first \<^verbatim>\<open>@\<close> and the factor is \<open>atoi\<close> of the part after it, an \<^verbatim>\<open>int\<close>.
\<close>

theorem parseScaler_result:
  assumes "NUL \<notin> set arg" and "length (name s) = 32"
  shows "(CHR ''@'' \<notin> set arg \<longrightarrow>
            parseScaler arg s = s
            \<and> cstr (name (parseScaler arg (scaler (init_state env)))) = []
            \<and> factor (parseScaler arg (scaler (init_state env))) = 1)
       \<and> (CHR ''@'' \<in> set arg \<longrightarrow>
            cstr (name (parseScaler arg s)) = take 31 (before_at arg)
            \<and> factor (parseScaler arg s) = atoi (after_at arg)
            \<and> - 2147483648 \<le> factor (parseScaler arg s)
            \<and> factor (parseScaler arg s) \<le> 2147483647)"
proof (cases "CHR ''@'' \<in> set arg")
  case True
  have "name (parseScaler arg s) = (strncpy (name s) (before_at arg) 31)[31 := NUL]"
    by (simp add: parseScaler_at [OF True])
  then have "cstr (name (parseScaler arg s)) = take 31 (before_at arg)"
    using cstr_strncpy [OF before_at_no_NUL [OF assms(1)] assms(2)] by simp
  moreover have "factor (parseScaler arg s) = atoi (after_at arg)"
    by (simp add: parseScaler_at [OF True])
  ultimately show ?thesis using True atoi_range [of "after_at arg"] by simp
next
  case False
  then show ?thesis
    by (simp add: parseScaler_no_at init_state_def cstr_first_NUL)
qed

theorem parseScaler_result_witness:
  "NUL \<notin> set ''hq'' \<and> NUL \<notin> set ''hq@3'' \<and> length (name scaler_init) = 32
   \<and> parseScaler ''hq'' scaler_init = scaler_init
   \<and> cstr (name (parseScaler ''hq'' (scaler (init_state env_legacy)))) = []
   \<and> factor (parseScaler ''hq'' (scaler (init_state env_legacy))) = 1
   \<and> cstr (name (parseScaler ''hq@3'' scaler_init)) = ''hq''
   \<and> factor (parseScaler ''hq@3'' scaler_init) = 3
   \<and> NUL \<notin> set ''hq@2147483648''
   \<and> factor (parseScaler ''hq@2147483648'' scaler_init) = - 2147483648"
proof -
  have z: "NUL \<notin> set ''hq''" and z': "NUL \<notin> set ''hq@3''"
    and z'': "NUL \<notin> set ''hq@2147483648''"
    by (simp_all add: NUL_def)
  have l: "length (name scaler_init) = 32"
    by (simp add: scaler_init_def)
  have b: "take 31 (before_at ''hq@3'') = ''hq''"
    by (simp add: before_at_def)
  have f: "atoi (after_at ''hq@3'') = 3"
    and f': "atoi (after_at ''hq@2147483648'') = - 2147483648"
    by code_simp+
  from parseScaler_result [OF z l, of env_legacy] parseScaler_result [OF z' l, of env_legacy]
    parseScaler_result [OF z'' l, of env_legacy] z z' z'' l b f f'
  show ?thesis by simp
qed

text \<open>
  The claim as first stated (the name is the part before the first \<^verbatim>\<open>@\<close>) fails for
  a part of 33 characters: the stored name is its first 31 characters.
\<close>

theorem parseScaler_long_name_counterexample:
  "CHR ''@'' \<in> set ''abcdefghijklmnopqrstuvwxyz0123456@2''
   \<and> before_at ''abcdefghijklmnopqrstuvwxyz0123456@2'' = ''abcdefghijklmnopqrstuvwxyz0123456''
   \<and> cstr (name (parseScaler ''abcdefghijklmnopqrstuvwxyz0123456@2'' scaler_init))
       = ''abcdefghijklmnopqrstuvwxyz01234''
   \<and> cstr (name (parseScaler ''abcdefghijklmnopqrstuvwxyz0123456@2'' scaler_init))
       \<noteq> before_at ''abcdefghijklmnopqrstuvwxyz0123456@2''"
  by code_simp

text \<open>
  Claim C6, as amended. After a scaler argument is parsed, the factor is at least 1
  exactly when either the argument has no \<^verbatim>\<open>@\<close> and the factor was at least 1
  before, or the \<^verbatim>\<open>int\<close> that \<open>atoi\<close> returns for the part after the first \<^verbatim>\<open>@\<close>
  is at least 1. That is so whenever that part reads as a positive decimal number up to
  2147483647 (white space, an optional \<^verbatim>\<open>+\<close>, then digits that are not all 0), and
  the factor is then that number.
\<close>

theorem parseScaler_factor_positive:
  "(1 \<le> factor (parseScaler arg s) \<longleftrightarrow>
      (if CHR ''@'' \<in> set arg then 1 \<le> atoi (after_at arg) else 1 \<le> factor s))
   \<and> (CHR ''@'' \<in> set arg \<and> positive_decimal (after_at arg)
        \<and> decimal_value (unsigned_digits (after_at arg)) \<le> 2147483647 \<longrightarrow>
        factor (parseScaler arg s) = decimal_value (unsigned_digits (after_at arg))
        \<and> 1 \<le> factor (parseScaler arg s))"
proof (cases "CHR ''@'' \<in> set arg")
  case True
  then have "factor (parseScaler arg s) = atoi (after_at arg)"
    by (simp add: parseScaler_at)
  with True atoi_small_positive [of "after_at arg"] show ?thesis
    by auto
next
  case False
  then show ?thesis by (simp add: parseScaler_no_at)
qed

theorem parseScaler_factor_positive_witness:
  "positive_decimal (after_at ''hq@ +03'')
   \<and> decimal_value (unsigned_digits (after_at ''hq@ +03'')) = 3
   \<and> factor (parseScaler ''hq@ +03'' scaler_init) = 3
   \<and> \<not> positive_decimal (after_at ''name@0'')
   \<and> \<not> 1 \<le> factor (parseScaler ''name@0'' scaler_init)
   \<and> 1 \<le> factor (parseScaler ''name'' scaler_init)
   \<and> positive_decimal (after_at ''hq@2147483648'')
   \<and> decimal_value (unsigned_digits (after_at ''hq@2147483648'')) = 2147483648
   \<and> \<not> 1 \<le> factor (parseScaler ''hq@2147483648'' scaler_init)"
proof -
  have a: "CHR ''@'' \<in> set ''hq@ +03''"
    by simp
  have p: "positive_decimal (after_at ''hq@ +03'')"
    and n: "\<not> positive_decimal (after_at ''name@0'')"
    and p': "positive_decimal (after_at ''hq@2147483648'')"
    by code_simp+
  have d: "decimal_value (unsigned_digits (after_at ''hq@ +03'')) = 3"
    and d': "decimal_value (unsigned_digits (after_at ''hq@2147483648'')) = 2147483648"
    by code_simp+
  have z: "atoi (after_at ''name@0'') = 0"
    and z': "atoi (after_at ''hq@2147483648'') = - 2147483648"
    by code_simp+
  have f: "1 \<le> factor scaler_init"
    by (simp add: scaler_init_def)
  from parseScaler_factor_positive [of "''hq@ +03''" scaler_init]
    parseScaler_factor_positive [of "''name@0''" scaler_init]
    parseScaler_factor_positive [of "''name''" scaler_init]
    parseScaler_factor_positive [of "''hq@2147483648''" scaler_init] a p n p' d d' z z' f
  show ?thesis by simp
qed

text \<open>
  The claim as first stated (the factor is at least 1 for all arguments) fails on the
  three arguments it names: the factors are 0, -2 and 0.
\<close>

theorem parseScaler_factor_counterexample:
  "factor (parseScaler ''name@0'' scaler_init) = 0
   \<and> factor (parseScaler ''name@-2'' scaler_init) = - 2
   \<and> factor (parseScaler ''name@'' scaler_init) = 0"
  by code_simp

section \<open>The option loop and backend resolution\<close>

text \<open>
  Facts about one round of the option loop, each lifted to the whole loop by induction
  on the list of options, for any state the loop starts in.
\<close>

lemma handle_option_opengl:
  "handle_option x st = Some st' \<Longrightarrow> opengl (dm st) = (graphicsType st = GRAPHICS_GL)
   \<Longrightarrow> opengl (dm st') = (graphicsType st' = GRAPHICS_GL)"
  by (cases x) (auto split: option.splits prod.splits)

lemma options_loop_opengl:
  "options_loop opts st = Some st' \<Longrightarrow> opengl (dm st) = (graphicsType st = GRAPHICS_GL)
   \<Longrightarrow> opengl (dm st') = (graphicsType st' = GRAPHICS_GL)"
proof (induction opts arbitrary: st)
  case Nil
  then show ?case by simp
next
  case (Cons x xs)
  from Cons.prems(1) obtain st1 where
    h: "handle_option x st = Some st1" and l: "options_loop xs st1 = Some st'"
    by (auto split: option.splits)
  from handle_option_opengl [OF h Cons.prems(2)] Cons.IH [OF l] show ?case by simp
qed

lemma handle_option_request:
  "handle_option x st = Some st' \<Longrightarrow>
   graphicsType st' = (case render_request x of None \<Rightarrow> graphicsType st | Some t \<Rightarrow> t)
   \<and> defaultGraphics st' = (defaultGraphics st \<and> render_request x = None)"
  by (cases x) (auto split: option.splits prod.splits)

lemma options_loop_request:
  "options_loop opts st = Some st' \<Longrightarrow>
   graphicsType st' = (case requestedBackend opts of None \<Rightarrow> graphicsType st | Some t \<Rightarrow> t)
   \<and> defaultGraphics st' = (defaultGraphics st \<and> requestedBackend opts = None)"
proof (induction opts arbitrary: st)
  case Nil
  then show ?case by simp
next
  case (Cons x xs)
  from Cons.prems obtain st1 where
    h: "handle_option x st = Some st1" and l: "options_loop xs st1 = Some st'"
    by (auto split: option.splits)
  from handle_option_request [OF h] Cons.IH [OF l] show ?case
    by (auto split: option.splits)
qed

lemma handle_option_flags:
  "handle_option x st = Some st' \<Longrightarrow>
   Graphics_is1991 (glob st') = Graphics_is1991 (glob st)
   \<and> Graphics_use565 (glob st') = Graphics_use565 (glob st)"
  by (cases x) (auto split: option.splits prod.splits)

lemma options_loop_flags:
  "options_loop opts st = Some st' \<Longrightarrow>
   Graphics_is1991 (glob st') = Graphics_is1991 (glob st)
   \<and> Graphics_use565 (glob st') = Graphics_use565 (glob st)"
proof (induction opts arbitrary: st)
  case Nil
  then show ?case by simp
next
  case (Cons x xs)
  from Cons.prems obtain st1 where
    h: "handle_option x st = Some st1" and l: "options_loop xs st1 = Some st'"
    by (auto split: option.splits)
  from handle_option_flags [OF h] Cons.IH [OF l] show ?case by simp
qed

lemma resolve_graphics_keeps:
  "dataPath (resolve_graphics dt st) = dataPath st \<and> part (resolve_graphics dt st) = part st"
  by (simp add: resolve_graphics_def Let_def)

lemma resolvedE:
  assumes "resolved env opts = Some st"
  obtains st0 where "options_loop opts (init_state env) = Some st0"
    and "st = resolve_graphics (detect env (dataPath st) (part st)) st0"
proof -
  from assms obtain st0 where p: "options_loop opts (init_state env) = Some st0"
    and r: "st = resolve_graphics (detect env (dataPath st0) (part st0)) st0"
    by (auto simp: resolved_def split: option.splits)
  from r have "dataPath st = dataPath st0" "part st = part st0"
    by (simp_all add: resolve_graphics_keeps)
  with p r that show thesis by simp
qed

lemma resolved_is1991:
  assumes "resolved env opts = Some st"
  shows "\<not> Graphics_is1991 (glob st)"
proof -
  from assms obtain st0 where p: "options_loop opts (init_state env) = Some st0"
    and r: "st = resolve_graphics (detect env (dataPath st) (part st)) st0"
    by (rule resolvedE)
  from options_loop_flags [OF p] have "\<not> Graphics_is1991 (glob st0)"
    by (simp add: init_state_def globals_init_def)
  then have "\<not> Graphics_is1991 (glob (resolve_graphics dt st0))" for dt
    by (simp add: resolve_graphics_def Let_def)
  with r show ?thesis by metis
qed

text \<open>
  Claim C4. For every command line and every detected edition, once backend resolution
  is done (lines 193-201, the console-port override included) the \<open>opengl\<close> flag of
  the display mode equals (resolved backend = GL).
\<close>

theorem resolved_opengl:
  assumes "resolved env opts = Some st"
  shows "opengl (dm st) = (graphicsType st = GRAPHICS_GL)"
proof -
  from assms obtain st0 where p: "options_loop opts (init_state env) = Some st0"
    and r: "st = resolve_graphics (detect env (dataPath st) (part st)) st0"
    by (rule resolvedE)
  have "opengl (dm (init_state env)) = (graphicsType (init_state env) = GRAPHICS_GL)"
    by (simp add: init_state_def)
  with p have i: "opengl (dm st0) = (graphicsType st0 = GRAPHICS_GL)"
    by (rule options_loop_opengl)
  have "opengl (dm (resolve_graphics dt st0)) = (graphicsType (resolve_graphics dt st0) = GRAPHICS_GL)" for dt
    using i by (cases dt) (simp_all add: resolve_graphics_def Let_def)
  with r show ?thesis by metis
qed

theorem resolved_opengl_witness:
  "resolved env_3DO [Opt_render ''original'', Opt_fullscreen] \<noteq> None
   \<and> map_option graphicsType (resolved env_3DO [Opt_render ''original'', Opt_fullscreen])
       = Some GRAPHICS_SOFTWARE
   \<and> map_option (opengl \<circ> dm) (resolved env_3DO [Opt_render ''original'', Opt_fullscreen])
       = Some False"
proof -
  obtain st where r: "resolved env_3DO [Opt_render ''original'', Opt_fullscreen] = Some st"
    by (simp add: resolved_def GRAPHICS_def)
  have g: "graphicsType st = GRAPHICS_SOFTWARE"
    using r by (auto simp: resolved_def env_3DO_def init_state_def GRAPHICS_def resolve_graphics_def)
  from resolved_opengl [OF r] g r show ?thesis by simp
qed

text \<open>
  Claim C5. When the command line makes no renderer request (no \<^verbatim>\<open>--render\<close> option
  with a name of the table), the resolved backend is GL for the 15th anniversary, 20th
  anniversary and 3DO editions, and ORIGINAL for every other edition.
\<close>

theorem resolved_default:
  assumes "resolved env opts = Some st" and "requestedBackend opts = None"
  shows "graphicsType st =
    (if modern (detect env (dataPath st) (part st)) then GRAPHICS_GL else GRAPHICS_ORIGINAL)"
proof -
  from assms(1) obtain st0 where p: "options_loop opts (init_state env) = Some st0"
    and r: "st = resolve_graphics (detect env (dataPath st) (part st)) st0"
    by (rule resolvedE)
  from options_loop_request [OF p] assms(2) have d: "defaultGraphics st0"
    by (simp add: init_state_def)
  have "graphicsType (resolve_graphics dt st0) = (if modern dt then GRAPHICS_GL else GRAPHICS_ORIGINAL)" for dt
    using d by (cases dt) (simp_all add: resolve_graphics_def Let_def)
  with r show ?thesis by metis
qed

theorem resolved_default_witness:
  "requestedBackend [Opt_part ''2'', Opt_render ''vulkan''] = None
   \<and> modern (detect env_3DO None 2)
   \<and> map_option graphicsType (resolved env_3DO [Opt_part ''2'', Opt_render ''vulkan''])
       = Some GRAPHICS_GL
   \<and> \<not> modern (detect env_legacy None 2)
   \<and> map_option graphicsType (resolved env_legacy [Opt_part ''2'', Opt_render ''vulkan''])
       = Some GRAPHICS_ORIGINAL"
proof -
  have q: "requestedBackend [Opt_part ''2'', Opt_render ''vulkan''] = None"
    by (simp add: GRAPHICS_def)
  obtain st where r: "resolved env_3DO [Opt_part ''2'', Opt_render ''vulkan''] = Some st"
    by (simp add: resolved_def GRAPHICS_def)
  obtain st' where r': "resolved env_legacy [Opt_part ''2'', Opt_render ''vulkan''] = Some st'"
    by (simp add: resolved_def GRAPHICS_def)
  have m: "modern (detect env_3DO (dataPath st) (part st))"
    and m': "\<not> modern (detect env_legacy (dataPath st') (part st'))"
    by (simp_all add: env_3DO_def env_legacy_def)
  from resolved_default [OF r q] resolved_default [OF r' q] m m' r r' q show ?thesis
    by (simp add: env_3DO_def env_legacy_def)
qed

text \<open>
  Claim C1, as amended. When the command line explicitly requests a renderer and the
  detected edition is the 3DO one, the override of lines 198-201 fires exactly when the
  requested renderer is not GL: a request for ORIGINAL or SOFTWARE resolves to SOFTWARE
  with the 565 flag set, and a request for GL stays GL with the 565 flag not set.
\<close>

theorem resolved_3DO_explicit:
  assumes "resolved env opts = Some st"
    and "detect env (dataPath st) (part st) = DT_3DO"
    and "requestedBackend opts = Some t"
  shows "graphicsType st = (if t = GRAPHICS_GL then GRAPHICS_GL else GRAPHICS_SOFTWARE)
    \<and> Graphics_use565 (glob st) = (t \<noteq> GRAPHICS_GL)"
proof -
  from assms(1) obtain st0 where p: "options_loop opts (init_state env) = Some st0"
    and r: "st = resolve_graphics (detect env (dataPath st) (part st)) st0"
    by (rule resolvedE)
  from options_loop_request [OF p] assms(3)
  have d: "\<not> defaultGraphics st0" and g: "graphicsType st0 = t"
    by simp_all
  from options_loop_flags [OF p] have f: "\<not> Graphics_use565 (glob st0)"
    by (simp add: init_state_def globals_init_def)
  from r assms(2) have "st = resolve_graphics DT_3DO st0" by simp
  with d g f show ?thesis
    by (simp add: resolve_graphics_def Let_def)
qed

theorem resolved_3DO_explicit_witness:
  "requestedBackend [Opt_render ''original''] = Some GRAPHICS_ORIGINAL
   \<and> detect env_3DO None 16001 = DT_3DO
   \<and> map_option graphicsType (resolved env_3DO [Opt_render ''original''])
       = Some GRAPHICS_SOFTWARE
   \<and> map_option (Graphics_use565 \<circ> glob) (resolved env_3DO [Opt_render ''original''])
       = Some True"
proof -
  have q: "requestedBackend [Opt_render ''original''] = Some GRAPHICS_ORIGINAL"
    by (simp add: GRAPHICS_def)
  obtain st where r: "resolved env_3DO [Opt_render ''original''] = Some st"
    by (simp add: resolved_def GRAPHICS_def)
  have d: "detect env_3DO (dataPath st) (part st) = DT_3DO"
    by (simp add: env_3DO_def)
  from resolved_3DO_explicit [OF r d q] r q show ?thesis
    by (simp add: env_3DO_def)
qed

text \<open>
  The claim as first stated (an explicit GL request on the 3DO edition resolves to
  SOFTWARE with the 565 flag set) fails: line 198 guards the override with
  \<^verbatim>\<open>graphicsType != GRAPHICS_GL\<close>.
\<close>

theorem resolved_3DO_explicit_gl_counterexample:
  "requestedBackend [Opt_render ''gl''] = Some GRAPHICS_GL
   \<and> detect env_3DO None 16001 = DT_3DO
   \<and> map_option graphicsType (resolved env_3DO [Opt_render ''gl'']) = Some GRAPHICS_GL
   \<and> map_option (Graphics_use565 \<circ> glob) (resolved env_3DO [Opt_render ''gl''])
       = Some False"
  by (simp add: resolved_def env_3DO_def init_state_def GRAPHICS_def resolve_graphics_def
      globals_init_def)

section \<open>Backend construction\<close>

text \<open>
  Claim C9. When the resolved backend is GL and the build does not define
  \<^verbatim>\<open>USE_GL\<close>, \<open>createGraphics\<close> returns the null pointer: no backend object is made,
  neither the GL one nor the software one, and the process-wide flags are untouched.
\<close>

theorem createGraphics_GL_not_compiled:
  "createGraphics False GRAPHICS_GL g = (g, None)"
  by (simp add: createGraphics_def)

theorem createGraphics_GL_not_compiled_witness:
  "createGraphics False GRAPHICS_GL globals_init = (globals_init, None)"
  using createGraphics_GL_not_compiled [of globals_init] by simp

text \<open>
  Claim C8. Constructing the backend of kind ORIGINAL sets the process-wide 1991
  flag; constructing the backend of kind SOFTWARE or GL leaves the flag at the value it
  had. In a run the flag is still false when the backend is resolved, so after the
  construction it is true exactly when the resolved kind is ORIGINAL.
\<close>

theorem createGraphics_is1991:
  "Graphics_is1991 (fst (createGraphics use_gl GRAPHICS_ORIGINAL g)) = True
   \<and> Graphics_is1991 (fst (createGraphics use_gl GRAPHICS_SOFTWARE g)) = Graphics_is1991 g
   \<and> Graphics_is1991 (fst (createGraphics use_gl GRAPHICS_GL g)) = Graphics_is1991 g
   \<and> (resolved env opts = Some st \<longrightarrow>
        Graphics_is1991 (glob st) = False
        \<and> Graphics_is1991 (fst (createGraphics use_gl (graphicsType st) (glob st)))
            = (graphicsType st = GRAPHICS_ORIGINAL))"
proof -
  have "Graphics_is1991 (fst (createGraphics use_gl (graphicsType st) (glob st)))
            = (graphicsType st = GRAPHICS_ORIGINAL)"
    if "\<not> Graphics_is1991 (glob st)"
    using that by (cases "graphicsType st") (simp_all add: createGraphics_def)
  then show ?thesis
    using resolved_is1991 [of env opts st] by (simp add: createGraphics_def)
qed

theorem createGraphics_is1991_witness:
  "resolved env_legacy [] \<noteq> None
   \<and> map_option graphicsType (resolved env_legacy []) = Some GRAPHICS_ORIGINAL
   \<and> map_option (\<lambda>st. Graphics_is1991 (glob st)) (resolved env_legacy []) = Some False
   \<and> map_option (\<lambda>st. Graphics_is1991 (fst (createGraphics False (graphicsType st) (glob st))))
        (resolved env_legacy []) = Some True
   \<and> Graphics_is1991 (fst (createGraphics True GRAPHICS_SOFTWARE globals_init)) = False
   \<and> Graphics_is1991 (fst (createGraphics True GRAPHICS_GL globals_init)) = False"
proof -
  obtain st where r: "resolved env_legacy [] = Some st"
    by (simp add: resolved_def)
  have g: "graphicsType st = GRAPHICS_ORIGINAL"
    using r by (auto simp: resolved_def env_legacy_def init_state_def resolve_graphics_def)
  have i: "\<not> Graphics_is1991 globals_init"
    by (simp add: globals_init_def)
  from createGraphics_is1991 [of False "glob st" env_legacy "[]" st]
    createGraphics_is1991 [of True globals_init env_legacy "[]" st] r g i
  show ?thesis by simp
qed

section \<open>The run loop and teardown\<close>

lemma run_loop_ends:
  "q (k + n) \<Longrightarrow> \<exists>m. run_loop q k = Some m"
proof (induction n arbitrary: k)
  case 0
  then show ?case by (simp add: run_loop.simps)
next
  case (Suc n)
  show ?case
  proof (cases "q k")
    case True
    then show ?thesis by (simp add: run_loop.simps)
  next
    case False
    from Suc.prems have "q (Suc k + n)" by simp
    then obtain m where "run_loop q (Suc k) = Some m" using Suc.IH by blast
    with False show ?thesis by (subst run_loop.simps) simp
  qed
qed

lemma precedes_first:
  "a \<notin> set tr0 \<Longrightarrow> precedes a b (tr0 @ a # rest) \<longleftrightarrow> b \<in> set rest"
proof -
  assume "a \<notin> set tr0"
  then have "dropWhile (\<lambda>c. c \<noteq> a) (tr0 @ a # rest) = dropWhile (\<lambda>c. c \<noteq> a) (a # rest)"
    by (intro dropWhile_append2) auto
  then show ?thesis
    by (simp add: precedes_def)
qed

text \<open>
  Claim C2, as amended. In every run that gets past the option loop and whose quit flag
  rises, main returns, and the last four calls it makes are, in this order: the engine's
  \<^verbatim>\<open>finish\<close>, the release of the engine, the stub's \<^verbatim>\<open>fini\<close>, the release of the
  stub; none of the four is made earlier. The engine is released first, the platform
  subsystem is shut down and released after it, and not the other way round.
\<close>

theorem main_teardown_order:
  assumes "resolved env opts \<noteq> None" and "quit env n"
  shows "\<exists>st tr0. main env opts
           = Some (Ran st (tr0 @ [Engine_finish, Delete_Engine, Stub_fini, Delete_Stub]))
         \<and> Engine_finish \<notin> set tr0 \<and> Delete_Engine \<notin> set tr0
         \<and> Stub_fini \<notin> set tr0 \<and> Delete_Stub \<notin> set tr0
         \<and> precedes Delete_Engine Stub_fini (calls_of (main env opts))
         \<and> precedes Delete_Engine Delete_Stub (calls_of (main env opts))
         \<and> \<not> precedes Stub_fini Delete_Engine (calls_of (main env opts))
         \<and> \<not> precedes Delete_Stub Delete_Engine (calls_of (main env opts))"
proof -
  from assms(1) obtain st1 where r: "resolved env opts = Some st1" by blast
  obtain g graphics where
    c: "createGraphics (USE_GL env) (graphicsType st1) (glob st1) = (g, graphics)"
    by (cases "createGraphics (USE_GL env) (graphicsType st1) (glob st1)")
  from assms(2) have "quit env (0 + n)" by simp
  then obtain m where l: "run_loop (quit env) 0 = Some m"
    using run_loop_ends by blast
  define tr0 where "tr0 =
    [New_Engine (dataPath st1) (part st1), Create_Graphics (graphicsType st1),
     SystemStub_SDL_create, Stub_init (lang st1) (dm st1), Engine_setSystemStub graphics,
     Engine_setup (lang st1) (graphicsType st1) (cstr (name (scaler st1))) (factor (scaler st1))]
    @ replicate m Engine_run"
  have m: "main env opts = Some (Ran (st1\<lparr>glob := g\<rparr>)
      (tr0 @ [Engine_finish, Delete_Engine, Stub_fini, Delete_Stub]))"
    using r c l by (simp add: main_def Let_def teardown_def tr0_def)
  have n: "Engine_finish \<notin> set tr0 \<and> Delete_Engine \<notin> set tr0
         \<and> Stub_fini \<notin> set tr0 \<and> Delete_Stub \<notin> set tr0"
    by (auto simp: tr0_def)
  have c: "calls_of (main env opts) = tr0 @ [Engine_finish, Delete_Engine, Stub_fini, Delete_Stub]"
    by (simp add: m)
  from n precedes_first [of Delete_Engine "tr0 @ [Engine_finish]" Stub_fini "[Stub_fini, Delete_Stub]"]
  have "precedes Delete_Engine Stub_fini (calls_of (main env opts))"
    by (simp add: c)
  moreover
  from n precedes_first [of Delete_Engine "tr0 @ [Engine_finish]" Delete_Stub "[Stub_fini, Delete_Stub]"]
  have "precedes Delete_Engine Delete_Stub (calls_of (main env opts))"
    by (simp add: c)
  moreover
  from n precedes_first [of Stub_fini "tr0 @ [Engine_finish, Delete_Engine]" Delete_Engine "[Delete_Stub]"]
  have "\<not> precedes Stub_fini Delete_Engine (calls_of (main env opts))"
    by (simp add: c)
  moreover
  from n precedes_first [of Delete_Stub "tr0 @ [Engine_finish, Delete_Engine, Stub_fini]" Delete_Engine "[]"]
  have "\<not> precedes Delete_Stub Delete_Engine (calls_of (main env opts))"
    by (simp add: c)
  ultimately show ?thesis using m n by blast
qed

theorem main_teardown_order_witness:
  "resolved env_3DO [] \<noteq> None \<and> quit env_3DO 2
   \<and> calls_of (main env_3DO [])
      = [New_Engine None 16001, Create_Graphics GRAPHICS_GL, SystemStub_SDL_create,
         Stub_init LANG_FR \<lparr>mode = WINDOWED, width = 640, height = 400, opengl = True\<rparr>,
         Engine_setSystemStub (Some GraphicsGL), Engine_setup LANG_FR GRAPHICS_GL [] 1,
         Engine_run, Engine_run]
        @ [Engine_finish, Delete_Engine, Stub_fini, Delete_Stub]"
proof -
  have r: "resolved env_3DO [] \<noteq> None" by (simp add: resolved_def)
  have q: "quit env_3DO 2" by (simp add: env_3DO_def)
  from main_teardown_order [OF r q] obtain st tr0 where
    m: "main env_3DO [] = Some (Ran st (tr0 @ [Engine_finish, Delete_Engine, Stub_fini, Delete_Stub]))"
    by blast
  have "calls_of (main env_3DO [])
      = [New_Engine None 16001, Create_Graphics GRAPHICS_GL, SystemStub_SDL_create,
         Stub_init LANG_FR \<lparr>mode = WINDOWED, width = 640, height = 400, opengl = True\<rparr>,
         Engine_setSystemStub (Some GraphicsGL), Engine_setup LANG_FR GRAPHICS_GL [] 1,
         Engine_run, Engine_run, Engine_finish, Delete_Engine, Stub_fini, Delete_Stub]"
    by (simp add: main_def resolved_def env_3DO_def init_state_def resolve_graphics_def
        createGraphics_def globals_init_def run_loop.simps teardown_def cstr_first_NUL
        numeral_2_eq_2)
  with r q m show ?thesis by simp
qed

text \<open>
  The claim as first stated (the platform subsystem is released first, the engine after
  it) fails on the run of the 3DO edition with no option that quits after two frames:
  neither \<^verbatim>\<open>stub->fini()\<close> nor the release of the stub precedes the release of the
  engine.
\<close>

theorem main_teardown_order_counterexample:
  "calls_of (main env_3DO [])
     = [New_Engine None 16001, Create_Graphics GRAPHICS_GL, SystemStub_SDL_create,
        Stub_init LANG_FR \<lparr>mode = WINDOWED, width = 640, height = 400, opengl = True\<rparr>,
        Engine_setSystemStub (Some GraphicsGL), Engine_setup LANG_FR GRAPHICS_GL [] 1,
        Engine_run, Engine_run, Engine_finish, Delete_Engine, Stub_fini, Delete_Stub]
   \<and> \<not> precedes Stub_fini Delete_Engine (calls_of (main env_3DO []))
   \<and> \<not> precedes Delete_Stub Delete_Engine (calls_of (main env_3DO []))
   \<and> precedes Delete_Engine Stub_fini (calls_of (main env_3DO []))
   \<and> precedes Delete_Engine Delete_Stub (calls_of (main env_3DO []))"
  by (simp add: main_def resolved_def env_3DO_def init_state_def resolve_graphics_def
      createGraphics_def globals_init_def run_loop.simps teardown_def cstr_first_NUL
      numeral_2_eq_2 precedes_def)

end
